theory Spec2Isabelle
  imports Complex_Main
begin

section \<open>Numeric arrays\<close>

text \<open>
  The arrays handled by \<^verbatim>\<open>image_transforms.py\<close> are floating-point numpy arrays.
  They are modelled over the real numbers: a two-dimensional array is the list of its
  rows. Rounding is outside the model, so an equation proved here is what the
  floating-point result approximates. An array that numpy fills with \<^verbatim>\<open>nan\<close> has no
  counterpart over the reals; such a result is the value \<open>None\<close>.
\<close>

type_synonym matrix = "real list list"

datatype py_error =
    ValueError | TypeError | IndexError | ZeroDivisionError
  | StopIteration | OSError | NotImplementedError




definition np_add :: "matrix \<Rightarrow> real \<Rightarrow> matrix" where
  "np_add m c = map (map (\<lambda>v. v + c)) m"

definition np_mul :: "matrix \<Rightarrow> real \<Rightarrow> matrix" where
  "np_mul m c = map (map (\<lambda>v. v * c)) m"

definition np_div :: "matrix \<Rightarrow> real \<Rightarrow> matrix" where
  "np_div m c = map (map (\<lambda>v. v / c)) m"

subsection \<open>\<^verbatim>\<open>scale_to_range\<close>\<close>


subsection \<open>\<^verbatim>\<open>normalize_to_zero_mean_unit_variance\<close>\<close>





subsection \<open>\<^verbatim>\<open>unscale_data\<close>\<close>

text \<open>
  \<^verbatim>\<open>
  data += 1
  data /= 2
  return data * (max_val - min_val) + min_val
  \<close>
  The two augmented assignments write into the array object that the caller passed, so
  the function is modelled over a store of array objects: it takes the store and the
  reference bound to \<^verbatim>\<open>data\<close>, and gives back the store after the call together with
  the returned array, which is a new object.
\<close>

type_synonym ref = nat
type_synonym store = "ref \<Rightarrow> matrix"

definition iadd :: "store \<Rightarrow> ref \<Rightarrow> real \<Rightarrow> store" where
  "iadd h data c = h(data := np_add (h data) c)"

definition itruediv :: "store \<Rightarrow> ref \<Rightarrow> real \<Rightarrow> store" where
  "itruediv h data c = h(data := np_div (h data) c)"

definition unscale_data :: "store \<Rightarrow> ref \<Rightarrow> real \<Rightarrow> real \<Rightarrow> store \<times> matrix" where
  "unscale_data h data min_val max_val =
     (let h1 = iadd h data 1;
          h2 = itruediv h1 data 2
      in (h2, np_add (np_mul (h2 data) (max_val - min_val)) min_val))"

text \<open>Calling a function of the store on a temporary array that nothing else refers to.\<close>

definition on_temporary :: "(store \<Rightarrow> ref \<Rightarrow> store \<times> matrix) \<Rightarrow> matrix \<Rightarrow> matrix" where
  "on_temporary f m = snd (f (\<lambda>_. m) 0)"

section \<open>The training loop of \<^verbatim>\<open>BaseGAN\<close>\<close>

subsection \<open>Running metrics\<close>

text \<open>
  \<^verbatim>\<open>self._gen_loss\<close>, \<^verbatim>\<open>self._disc_loss\<close> and \<^verbatim>\<open>self._disc_accuracy\<close> are created once,
  in \<^verbatim>\<open>__init__\<close>, as Keras running means: an object holding a running total and a
  count. \<^verbatim>\<open>reset_states()\<close> zeroes both, an observation adds to both, and
  \<^verbatim>\<open>result()\<close> is the total divided by the count, or 0 when nothing was observed.
\<close>

record mean_metric =
  running_total :: real
  running_count :: nat

definition reset_states :: "mean_metric \<Rightarrow> mean_metric" where
  "reset_states m = m\<lparr>running_total := 0, running_count := 0\<rparr>"

definition update_state :: "mean_metric \<Rightarrow> real \<Rightarrow> mean_metric" where
  "update_state m v = m\<lparr>running_total := running_total m + v, running_count := Suc (running_count m)\<rparr>"

definition result :: "mean_metric \<Rightarrow> real" where
  "result m = (if running_count m = 0 then 0 else running_total m / real (running_count m))"

subsection \<open>The object, its collaborators and the state of a run\<close>

text \<open>
  The part of \<^verbatim>\<open>self\<close> that a training step may change: the models and optimizers
  (of a type \<open>'m\<close> left open) and the three metrics.
\<close>

record 'm base_gan =
  trainable :: 'm
  disc_loss :: mean_metric
  gen_loss :: mean_metric
  disc_accuracy :: mean_metric

text \<open>One call of \<^verbatim>\<open>generate_and_plot_images\<close> that reached \<^verbatim>\<open>plt.savefig\<close>: the
  epoch in the file name, the input given to the generator, and the images drawn, each
  with the cell \<^verbatim>\<open>axs[i // 4, i % 4]\<close> it was drawn in.\<close>

record 'n emission =
  epoch_tag :: int
  noise_input :: "'n option"
  grid :: "((nat \<times> nat) \<times> matrix) list"

text \<open>
  What \<^verbatim>\<open>train_loop\<close> calls but does not define. Each may raise.
  \<^item> \<open>n_batches\<close>, \<open>next_batch\<close>: the batch generator; \<open>next_batch k\<close> is what the
    call of \<^verbatim>\<open>next(batch_generator)\<close> gives after \<open>k\<close> earlier calls.
  \<^item> \<open>train_step\<close>: the hook that subclasses override (called with \<^verbatim>\<open>noise_dim = 100\<close>).
  \<^item> \<open>call_generator m input training\<close>: \<^verbatim>\<open>model(input, training=...)\<close>, as the list of
    the slices \<^verbatim>\<open>predictions[i, :, :, 0]\<close>. The input is \<open>None\<close> when Python's
    \<^verbatim>\<open>None\<close> is passed.
  \<^item> \<open>random_normal e\<close>: the draw of \<^verbatim>\<open>tf.random.normal([16, 100])\<close> in epoch \<open>e\<close>.
  \<^item> \<open>ckpt_save k\<close>: the exception of \<^verbatim>\<open>self.ckpt_manager.save(checkpoint_number=k)\<close>,
    if it raises one.
  \<^item> the two directory properties, \<open>None\<close> when never set.
\<close>

record ('b, 'm, 'n) collaborators =
  n_batches :: int
  next_batch :: "nat \<Rightarrow> py_error + 'b"
  train_step :: "'b \<Rightarrow> 'm base_gan \<Rightarrow> py_error + 'm base_gan"
  call_generator :: "'m \<Rightarrow> 'n option \<Rightarrow> bool \<Rightarrow> py_error + matrix list"
  random_normal :: "nat \<Rightarrow> 'n"
  ckpt_save :: "int \<Rightarrow> py_error option"
  generated_image_dir :: "string option"
  log_dir :: "string option"

text \<open>
  The state of a call of \<^verbatim>\<open>train_loop\<close>: \<^verbatim>\<open>self\<close>, the local variables, and a record
  of what the call did to the outside (batches pulled, images written, checkpoints
  saved, the metrics figure).
\<close>

record ('m, 'n) loop_state =
  self :: "'m base_gan"
  generator_losses :: "real list"
  discriminator_losses :: "real list"
  discriminator_accuracies :: "real list"
  noise :: "'n option"
  batches_pulled :: nat
  emissions :: "'n emission list"
  checkpoints :: "int list"
  metrics_plot :: "(real list \<times> real list \<times> real list) option"

text \<open>A call either returns a state, or raises: \<open>Inl (e, s)\<close> is the exception \<open>e\<close>
  raised in state \<open>s\<close>. Nothing in \<^verbatim>\<open>base.py\<close> catches an exception.\<close>

type_synonym ('m, 'n) outcome = "(py_error \<times> ('m, 'n) loop_state) + ('m, 'n) loop_state"

definition final_state :: "('m, 'n) outcome \<Rightarrow> ('m, 'n) loop_state" where
  "final_state r = (case r of Inl (e, s) \<Rightarrow> s | Inr s \<Rightarrow> s)"

subsection \<open>\<^verbatim>\<open>generate_and_plot_images\<close>\<close>

text \<open>
  Modelled from the spec: \<^verbatim>\<open>unnormalize_data\<close>, which \<^verbatim>\<open>base.py\<close> imports from
  \<^verbatim>\<open>utils.image_transforms\<close>, is not defined in the source files at hand
  (\<^verbatim>\<open>image_transforms.py\<close> defines \<^verbatim>\<open>unscale_data\<close>). The spec gives the inverse
  transform of the normalizer, with \<^verbatim>\<open>min_val=0, max_val=1\<close>, as: it adds 1, divides
  by 2, then affine-maps to \<^verbatim>\<open>[min_val, max_val]\<close>.
\<close>

definition unnormalize_data :: "matrix \<Rightarrow> matrix" where
  "unnormalize_data data = np_add (np_mul (np_div (np_add data 1) 2) (1 - 0)) 0"

text \<open>
  \<^verbatim>\<open>
  for i in range(predictions.shape[0]):
      ax = axs[i // 4, i % 4]
      mel_spectrogram = unnormalize_data(predictions[i, :, :, 0].numpy())
      ax.imshow(mel_spectrogram, ...)
  \<close>
  \<^verbatim>\<open>axs\<close> is the 4 by 4 array of \<^verbatim>\<open>plt.subplots(4, 4)\<close>: indexing it raises
  \<^verbatim>\<open>IndexError\<close> from the seventeenth prediction on.
\<close>

fun plot_predictions :: "nat \<Rightarrow> matrix list \<Rightarrow> py_error + ((nat \<times> nat) \<times> matrix) list" where
  "plot_predictions i [] = Inr []"
| "plot_predictions i (p # ps) =
     (if i div 4 < 4 \<and> i mod 4 < 4 then
        (case plot_predictions (Suc i) ps of
           Inl e \<Rightarrow> Inl e
         | Inr cells \<Rightarrow> Inr (((i div 4, i mod 4), unnormalize_data p) # cells))
      else Inl IndexError)"

text \<open>
  \<^verbatim>\<open>
  predictions = model(input, training=False)
  ...
  plt.savefig(self.generated_image_dir / 'image_at_epoch_{:04d}.png'.format(epoch))
  \<close>
  With \<^verbatim>\<open>generated_image_dir\<close> unset, \<^verbatim>\<open>None / str\<close> raises \<^verbatim>\<open>TypeError\<close>.
\<close>

definition generate_and_plot_images ::
  "('b, 'm, 'n) collaborators \<Rightarrow> 'm \<Rightarrow> int \<Rightarrow> 'n option \<Rightarrow> ('m, 'n) loop_state \<Rightarrow> ('m, 'n) outcome" where
  "generate_and_plot_images c model epoch input s =
     (case call_generator c model input False of
        Inl e \<Rightarrow> Inl (e, s)
      | Inr predictions \<Rightarrow>
         (case plot_predictions 0 predictions of
            Inl e \<Rightarrow> Inl (e, s)
          | Inr cells \<Rightarrow>
             (case generated_image_dir c of
                None \<Rightarrow> Inl (TypeError, s)
              | Some d \<Rightarrow>
                  Inr (s\<lparr>emissions := emissions s @
                        [\<lparr>epoch_tag = epoch, noise_input = input, grid = cells\<rparr>]\<rparr>))))"

subsection \<open>\<^verbatim>\<open>train_loop\<close>\<close>

text \<open>
  \<^verbatim>\<open>
  for _ in range(batch_generator.n_batches):
      train_X, _ = next(batch_generator)
      self.train_step(train_X, noise_dim)
  \<close>
\<close>

fun batch_loop :: "('b, 'm, 'n) collaborators \<Rightarrow> nat \<Rightarrow> ('m, 'n) loop_state \<Rightarrow> ('m, 'n) outcome" where
  "batch_loop c 0 s = Inr s"
| "batch_loop c (Suc k) s =
     (case next_batch c (batches_pulled s) of
        Inl e \<Rightarrow> Inl (e, s)
      | Inr train_X \<Rightarrow>
          let s1 = s\<lparr>batches_pulled := Suc (batches_pulled s)\<rparr> in
          (case train_step c train_X (self s1) of
             Inl e \<Rightarrow> Inl (e, s1)
           | Inr g \<Rightarrow> batch_loop c k (s1\<lparr>self := g\<rparr>)))"

text \<open>
  The body of \<^verbatim>\<open>for epoch in range(epochs)\<close>: the three resets, the batches, the three
  results appended to the local lists, the choice of the noise, the images, and the
  checkpoint when \<^verbatim>\<open>(epoch + 1) % checkpoint_freq == 0\<close>. Python's \<^verbatim>\<open>%\<close> on integers
  raises \<^verbatim>\<open>ZeroDivisionError\<close> for a zero divisor and otherwise agrees with \<open>mod\<close>.
\<close>

definition reset_metrics :: "'m base_gan \<Rightarrow> 'm base_gan" where
  "reset_metrics g =
     g\<lparr>gen_loss := reset_states (gen_loss g),
       disc_loss := reset_states (disc_loss g),
       disc_accuracy := reset_states (disc_accuracy g)\<rparr>"

definition append_averages :: "('m, 'n) loop_state \<Rightarrow> ('m, 'n) loop_state" where
  "append_averages s =
     (let avg_gen_loss = result (gen_loss (self s));
          avg_disc_loss = result (disc_loss (self s));
          avg_disc_accuracy = result (disc_accuracy (self s))
      in s\<lparr>generator_losses := generator_losses s @ [avg_gen_loss],
            discriminator_losses := discriminator_losses s @ [avg_disc_loss],
            discriminator_accuracies := discriminator_accuracies s @ [avg_disc_accuracy]\<rparr>)"

definition choose_noise ::
  "('b, 'm, 'n) collaborators \<Rightarrow> 'n option \<Rightarrow> nat \<Rightarrow> ('m, 'n) loop_state \<Rightarrow> ('m, 'n) loop_state" where
  "choose_noise c noise_vector epoch s =
     (if noise_vector = None then s\<lparr>noise := Some (random_normal c epoch)\<rparr> else s)"

definition checkpoint_on_cadence ::
  "('b, 'm, 'n) collaborators \<Rightarrow> int \<Rightarrow> nat \<Rightarrow> ('m, 'n) loop_state \<Rightarrow> ('m, 'n) outcome" where
  "checkpoint_on_cadence c checkpoint_freq epoch s =
     (if checkpoint_freq = 0 then Inl (ZeroDivisionError, s)
      else if (int epoch + 1) mod checkpoint_freq = 0 then
        (case ckpt_save c (int epoch + 1) of
           Some e \<Rightarrow> Inl (e, s)
         | None \<Rightarrow> Inr (s\<lparr>checkpoints := checkpoints s @ [int epoch + 1]\<rparr>))
      else Inr s)"

definition run_epoch ::
  "('b, 'm, 'n) collaborators \<Rightarrow> int \<Rightarrow> 'n option \<Rightarrow> nat \<Rightarrow> ('m, 'n) loop_state \<Rightarrow> ('m, 'n) outcome" where
  "run_epoch c checkpoint_freq noise_vector epoch s =
     (case batch_loop c (nat (n_batches c)) (s\<lparr>self := reset_metrics (self s)\<rparr>) of
        Inl x \<Rightarrow> Inl x
      | Inr s1 \<Rightarrow>
         (let s3 = choose_noise c noise_vector epoch (append_averages s1)
          in case generate_and_plot_images c (trainable (self s3)) (int epoch + 1) (noise s3) s3 of
               Inl x \<Rightarrow> Inl x
             | Inr s4 \<Rightarrow> checkpoint_on_cadence c checkpoint_freq epoch s4))"

text \<open>\<open>epoch_loop c checkpoint_freq noise_vector epoch k\<close> runs the \<open>k\<close> iterations that
  start with the loop variable at \<open>epoch\<close>.\<close>

fun epoch_loop ::
  "('b, 'm, 'n) collaborators \<Rightarrow> int \<Rightarrow> 'n option \<Rightarrow> nat \<Rightarrow> nat \<Rightarrow> ('m, 'n) loop_state \<Rightarrow> ('m, 'n) outcome" where
  "epoch_loop c checkpoint_freq noise_vector epoch 0 s = Inr s"
| "epoch_loop c checkpoint_freq noise_vector epoch (Suc k) s =
     (case run_epoch c checkpoint_freq noise_vector epoch s of
        Inl x \<Rightarrow> Inl x
      | Inr s' \<Rightarrow> epoch_loop c checkpoint_freq noise_vector (Suc epoch) k s')"

definition initial_state :: "'m base_gan \<Rightarrow> 'n option \<Rightarrow> ('m, 'n) loop_state" where
  "initial_state g noise_vector =
     \<lparr>self = g, generator_losses = [], discriminator_losses = [], discriminator_accuracies = [],
      noise = noise_vector, batches_pulled = 0, emissions = [], checkpoints = [],
      metrics_plot = None\<rparr>"

text \<open>
  \<^verbatim>\<open>range(epochs)\<close> is empty for \<^verbatim>\<open>epochs <= 0\<close>. After the loop the images are
  generated once more, with \<^verbatim>\<open>epochs\<close> as the epoch and the last value of \<^verbatim>\<open>noise\<close>;
  then the three lists are plotted if \<^verbatim>\<open>log_dir\<close> is set.
\<close>

definition train_loop ::
  "('b, 'm, 'n) collaborators \<Rightarrow> 'm base_gan \<Rightarrow> int \<Rightarrow> int \<Rightarrow> 'n option \<Rightarrow> ('m, 'n) outcome" where
  "train_loop c g epochs checkpoint_freq noise_vector =
     (case epoch_loop c checkpoint_freq noise_vector 0 (nat epochs) (initial_state g noise_vector) of
        Inl x \<Rightarrow> Inl x
      | Inr s1 \<Rightarrow>
         (case generate_and_plot_images c (trainable (self s1)) epochs (noise s1) s1 of
            Inl x \<Rightarrow> Inl x
          | Inr s2 \<Rightarrow>
              Inr (if log_dir c \<noteq> None
                   then s2\<lparr>metrics_plot := Some (generator_losses s2, discriminator_losses s2,
                                                  discriminator_accuracies s2)\<rparr>
                   else s2)))"

subsection \<open>A training step that reports to the metrics\<close>

text \<open>
  Modelled from the spec: the \<^verbatim>\<open>train_step\<close> of the concrete subclasses, which are not
  among the source files at hand (in \<^verbatim>\<open>BaseGAN\<close> the hook only raises). By the spec the
  hook yields the scalars \<^verbatim>\<open>{gen_loss, disc_loss, disc_accuracy}\<close> of the batch, which are
  fed into the accumulators. \<open>observations\<close> lists the generator losses that a run of
  steps over the given batches observes.
\<close>

definition observing_train_step ::
  "('b \<Rightarrow> 'm \<Rightarrow> 'm \<times> real \<times> real \<times> real) \<Rightarrow> 'b \<Rightarrow> 'm base_gan \<Rightarrow> py_error + 'm base_gan" where
  "observing_train_step step b g =
     (case step b (trainable g) of
        (m', gl, dl, da) \<Rightarrow>
          Inr (g\<lparr>trainable := m',
                 gen_loss := update_state (gen_loss g) gl,
                 disc_loss := update_state (disc_loss g) dl,
                 disc_accuracy := update_state (disc_accuracy g) da\<rparr>))"


subsection \<open>Concrete collaborators\<close>

text \<open>
  Collaborators to run the loop on: a batch source with \<open>n\<close> batches per epoch whose
  calls with a number in \<open>failing\<close> raise and whose other calls return their number; a
  step that counts its calls and reports the batch's number as the generator loss; a
  generator that rejects \<^verbatim>\<open>None\<close> and returns sixteen images for any other input; a
  checkpoint manager that raises exactly at the numbers in \<open>bad\<close>.
\<close>

definition demo_step :: "nat \<Rightarrow> nat \<Rightarrow> nat \<times> real \<times> real \<times> real" where
  "demo_step b m = (Suc m, real b, 1, 1 / 2)"

definition demo_generator :: "nat \<Rightarrow> nat option \<Rightarrow> bool \<Rightarrow> py_error + matrix list" where
  "demo_generator m input training =
     (case input of None \<Rightarrow> Inl ValueError | Some z \<Rightarrow> Inr (replicate 16 [[- 1, 1]]))"

definition demo :: "int \<Rightarrow> nat set \<Rightarrow> int set \<Rightarrow> (nat, nat, nat) collaborators" where
  "demo n failing bad =
     \<lparr>n_batches = n,
      next_batch = (\<lambda>k. if k \<in> failing then Inl OSError else Inr k),
      train_step = observing_train_step demo_step,
      call_generator = demo_generator,
      random_normal = (\<lambda>e. e),
      ckpt_save = (\<lambda>k. if k \<in> bad then Some OSError else None),
      generated_image_dir = Some ''generated'',
      log_dir = None\<rparr>"

definition demo_gan :: "nat base_gan" where
  "demo_gan =
     \<lparr>trainable = 0,
      disc_loss = \<lparr>running_total = 0, running_count = 0\<rparr>,
      gen_loss = \<lparr>running_total = 0, running_count = 0\<rparr>,
      disc_accuracy = \<lparr>running_total = 0, running_count = 0\<rparr>\<rparr>"

subsection \<open>Vocabulary for statements about a run\<close>

text \<open>The training step never raises.\<close>

definition steps_succeed :: "('b, 'm, 'n) collaborators \<Rightarrow> bool" where
  "steps_succeed c = (\<forall>b g. \<exists>g'. train_step c b g = Inr g')"

text \<open>The generator, called in inference mode on a noise input, returns at most sixteen
  images, and the directory for the images is set: \<^verbatim>\<open>generate_and_plot_images\<close> then
  completes on every noise input.\<close>

definition images_succeed :: "('b, 'm, 'n) collaborators \<Rightarrow> bool" where
  "images_succeed c =
     ((\<forall>m z. \<exists>ps. call_generator c m (Some z) False = Inr ps \<and> length ps \<le> 16) \<and>
      generated_image_dir c \<noteq> None)"

text \<open>The cells that \<^verbatim>\<open>generate_and_plot_images\<close> fills for the predictions \<open>ps\<close>,
  the first of them having index \<open>i\<close>.\<close>

definition drawn :: "nat \<Rightarrow> matrix list \<Rightarrow> ((nat \<times> nat) \<times> matrix) list" where
  "drawn i ps = map (\<lambda>k. (((i + k) div 4, (i + k) mod 4), unnormalize_data (ps ! k))) [0..<length ps]"

text \<open>The three local lists of \<^verbatim>\<open>train_loop\<close>, and the number of epochs they hold.\<close>

definition history :: "('m, 'n) loop_state \<Rightarrow> real list \<times> real list \<times> real list" where
  "history s = (generator_losses s, discriminator_losses s, discriminator_accuracies s)"

definition epochs_recorded :: "('m, 'n) loop_state \<Rightarrow> nat" where
  "epochs_recorded s = length (generator_losses s)"

text \<open>The values \<^verbatim>\<open>epoch + 1\<close> of \<open>k\<close> iterations that start at \<open>e\<close>.\<close>

definition tags :: "nat \<Rightarrow> nat \<Rightarrow> int list" where
  "tags e k = map (\<lambda>i. int i + 1) [e..<e + k]"

section \<open>Properties of the numeric transforms\<close>

























section \<open>Properties of the training loop\<close>

subsection \<open>Emitting the images\<close>

lemma plot_predictions_ok:
  "i + length ps \<le> 16 \<Longrightarrow> plot_predictions i ps = Inr (drawn i ps)"
proof (induction ps arbitrary: i)
  case Nil
  then show ?case by (simp add: drawn_def)
next
  case (Cons p ps)
  have i: "i < 16" using Cons.prems by simp
  then have d: "i div 4 < 4" by simp
  have "Suc i + length ps \<le> 16" using Cons.prems by simp
  then have ih: "plot_predictions (Suc i) ps = Inr (drawn (Suc i) ps)" by (rule Cons.IH)
  have "[0..<length (p # ps)] = 0 # map Suc [0..<length ps]"
    by (simp add: upt_conv_Cons map_Suc_upt del: upt_Suc)
  then have "drawn i (p # ps) = ((i div 4, i mod 4), unnormalize_data p) # drawn (Suc i) ps"
    unfolding drawn_def by (simp add: comp_def)
  then show ?case using d ih by simp
qed

lemma generate_and_plot_images_ok:
  assumes "call_generator c m z False = Inr ps" and "length ps \<le> 16"
    and "generated_image_dir c = Some d"
  shows "generate_and_plot_images c m e z s =
     Inr (s\<lparr>emissions := emissions s @ [\<lparr>epoch_tag = e, noise_input = z, grid = drawn 0 ps\<rparr>]\<rparr>)"
  using assms plot_predictions_ok[of 0 ps]
  by (simp add: generate_and_plot_images_def)

lemma images_succeed_emit:
  assumes "images_succeed c" and "z \<noteq> None"
  shows "\<exists>cells. generate_and_plot_images c m e z s =
     Inr (s\<lparr>emissions := emissions s @ [\<lparr>epoch_tag = e, noise_input = z, grid = cells\<rparr>]\<rparr>)"
proof -
  from assms obtain ps d where h: "call_generator c m z False = Inr ps" "length ps \<le> 16"
      "generated_image_dir c = Some d"
    unfolding images_succeed_def by fastforce
  show ?thesis
    by (rule exI[of _ "drawn 0 ps"]) (rule generate_and_plot_images_ok[OF h])
qed

lemma demo_fields:
  "n_batches (demo n failing bad) = n"
  "next_batch (demo n failing bad) k = (if k \<in> failing then Inl OSError else Inr k)"
  "train_step (demo n failing bad) = observing_train_step demo_step"
  "call_generator (demo n failing bad) = demo_generator"
  "ckpt_save (demo n failing bad) t = (if t \<in> bad then Some OSError else None)"
  "generated_image_dir (demo n failing bad) = Some ''generated''"
  "log_dir (demo n failing bad) = None"
  by (simp_all add: demo_def)

lemma demo_steps_succeed: "steps_succeed (demo n failing bad)"
  by (simp add: steps_succeed_def demo_fields observing_train_step_def split: prod.splits)

lemma demo_images_succeed: "images_succeed (demo n failing bad)"
  by (simp add: images_succeed_def demo_fields demo_generator_def)

lemma unnormalize_data_unscale:
  "unnormalize_data p = on_temporary (\<lambda>h r. unscale_data h r 0 1) p"
  by (simp add: unnormalize_data_def on_temporary_def unscale_data_def iadd_def itruediv_def Let_def)

text \<open>
  C9. Whenever the images are emitted, the generator is called with \<^verbatim>\<open>training=False\<close>
  on the noise input; if it returns sixteen outputs (as it does for a noise input of
  shape \<^verbatim>\<open>[16, noise_dim]\<close>), each of the sixteen is passed through the inverse
  transform of the normalizer, which is what \<^verbatim>\<open>unscale_data\<close> returns with its default
  arguments, and the sixteen results are handed to the plot, in row-major order of
  the 4 by 4 grid, together with the epoch.
\<close>

theorem emission_unscales_each_output:
  assumes "call_generator c model input False = Inr predictions"
    and "length predictions = 16" and "generated_image_dir c = Some d"
  shows "\<exists>cells. generate_and_plot_images c model epoch input s =
           Inr (s\<lparr>emissions := emissions s @
                  [\<lparr>epoch_tag = epoch, noise_input = input, grid = cells\<rparr>]\<rparr>) \<and>
         length cells = 16 \<and>
         (\<forall>i<16. cells ! i =
             ((i div 4, i mod 4), on_temporary (\<lambda>h r. unscale_data h r 0 1) (predictions ! i)))"
proof -
  have le: "length predictions \<le> 16" using assms(2) by simp
  have "generate_and_plot_images c model epoch input s =
           Inr (s\<lparr>emissions := emissions s @
                  [\<lparr>epoch_tag = epoch, noise_input = input, grid = drawn 0 predictions\<rparr>]\<rparr>)"
    by (rule generate_and_plot_images_ok[OF assms(1) le assms(3)])
  moreover have "length (drawn 0 predictions) = 16" using assms(2) by (simp add: drawn_def)
  moreover have "\<forall>i<16. drawn 0 predictions ! i =
             ((i div 4, i mod 4), on_temporary (\<lambda>h r. unscale_data h r 0 1) (predictions ! i))"
    using assms(2) by (simp add: drawn_def unnormalize_data_unscale)
  ultimately show ?thesis by (intro exI[of _ "drawn 0 predictions"]) simp
qed

theorem emission_unscales_each_output_witness:
  "\<exists>cells. generate_and_plot_images (demo 4 {} {}) 0 3 (Some 7) (initial_state demo_gan (Some 7)) =
           Inr ((initial_state demo_gan (Some 7))\<lparr>emissions :=
                  [\<lparr>epoch_tag = 3, noise_input = Some 7, grid = cells\<rparr>]\<rparr>) \<and>
         length cells = 16 \<and> cells ! 0 = ((0, 0), [[0, 1]]) \<and> cells ! 15 = ((3, 3), [[0, 1]])"
proof -
  have g: "call_generator (demo 4 {} {}) 0 (Some 7) False = Inr (replicate 16 [[- 1, 1]])"
    by (simp add: demo_fields demo_generator_def)
  have l: "length (replicate 16 [[- 1, 1 :: real]]) = 16" by simp
  from emission_unscales_each_output[OF g l demo_fields(6), of 3 "initial_state demo_gan (Some 7)"]
  obtain cells where c:
    "generate_and_plot_images (demo 4 {} {}) 0 3 (Some 7) (initial_state demo_gan (Some 7)) =
           Inr ((initial_state demo_gan (Some 7))\<lparr>emissions := emissions (initial_state demo_gan (Some 7)) @
                  [\<lparr>epoch_tag = 3, noise_input = Some 7, grid = cells\<rparr>]\<rparr>) \<and>
         length cells = 16 \<and>
         (\<forall>i<16. cells ! i =
             ((i div 4, i mod 4), on_temporary (\<lambda>h r. unscale_data h r 0 1) (replicate 16 [[- 1, 1]] ! i)))" ..
  have u: "on_temporary (\<lambda>h r. unscale_data h r 0 1) [[- 1, 1]] = [[0, 1]]"
    by (simp add: on_temporary_def unscale_data_def iadd_def itruediv_def np_add_def np_div_def
        np_mul_def Let_def)
  have c0: "cells ! 0 = ((0, 0), [[0, 1]])" using c u by simp
  have "(15::nat) < 16" by simp
  then have "cells ! 15 =
      ((15 div 4, 15 mod 4), on_temporary (\<lambda>h r. unscale_data h r 0 1) (replicate 16 [[- 1, 1]] ! 15))"
    using c by blast
  then have c15: "cells ! 15 = ((3, 3), [[0, 1]])" using u by simp
  show ?thesis using c c0 c15 by (intro exI[of _ cells]) (simp add: initial_state_def)
qed

subsection \<open>The batches of an epoch\<close>

lemma batch_loop_ok:
  assumes "steps_succeed c"
    and "\<forall>i<k. \<exists>b. next_batch c (batches_pulled s + i) = Inr b"
  shows "\<exists>g. batch_loop c k s = Inr (s\<lparr>self := g, batches_pulled := batches_pulled s + k\<rparr>)"
  using assms(2)
proof (induction k arbitrary: s)
  case 0
  have "s = s\<lparr>self := self s, batches_pulled := batches_pulled s + 0\<rparr>" by simp
  then show ?case by (metis batch_loop.simps(1))
next
  case (Suc k)
  from Suc.prems obtain b where b: "next_batch c (batches_pulled s) = Inr b" by fastforce
  let ?s1 = "s\<lparr>batches_pulled := Suc (batches_pulled s)\<rparr>"
  from assms(1) obtain g where g: "train_step c b (self ?s1) = Inr g"
    unfolding steps_succeed_def by blast
  let ?s2 = "?s1\<lparr>self := g\<rparr>"
  have "\<forall>i<k. \<exists>b. next_batch c (batches_pulled ?s2 + i) = Inr b"
  proof (intro allI impI)
    fix i assume "i < k"
    then have "Suc i < Suc k" by simp
    with Suc.prems have "\<exists>b. next_batch c (batches_pulled s + Suc i) = Inr b" by blast
    then show "\<exists>b. next_batch c (batches_pulled ?s2 + i) = Inr b" by simp
  qed
  from Suc.IH[OF this] obtain g' where
    "batch_loop c k ?s2 = Inr (?s2\<lparr>self := g', batches_pulled := batches_pulled ?s2 + k\<rparr>)"
    by blast
  then have "batch_loop c (Suc k) s = Inr (s\<lparr>self := g', batches_pulled := batches_pulled s + Suc k\<rparr>)"
    using b g by simp
  then show ?case by blast
qed

lemma batch_loop_fail:
  assumes "steps_succeed c"
    and "\<forall>i<j. \<exists>b. next_batch c (batches_pulled s + i) = Inr b"
    and "next_batch c (batches_pulled s + j) = Inl err"
    and "j < k"
  shows "\<exists>g. batch_loop c k s = Inl (err, s\<lparr>self := g, batches_pulled := batches_pulled s + j\<rparr>)"
  using assms(2-4)
proof (induction k arbitrary: s j)
  case 0
  then show ?case by simp
next
  case (Suc k)
  show ?case
  proof (cases j)
    case 0
    have "s = s\<lparr>self := self s, batches_pulled := batches_pulled s + 0\<rparr>" by simp
    moreover have "batch_loop c (Suc k) s = Inl (err, s)" using Suc.prems(2) 0 by simp
    ultimately show ?thesis using 0 by metis
  next
    case (Suc j')
    from Suc.prems(1) Suc obtain b where b: "next_batch c (batches_pulled s) = Inr b" by fastforce
    let ?s1 = "s\<lparr>batches_pulled := Suc (batches_pulled s)\<rparr>"
    from assms(1) obtain g where g: "train_step c b (self ?s1) = Inr g"
      unfolding steps_succeed_def by blast
    let ?s2 = "?s1\<lparr>self := g\<rparr>"
    have p1: "\<forall>i<j'. \<exists>b. next_batch c (batches_pulled ?s2 + i) = Inr b"
    proof (intro allI impI)
      fix i assume "i < j'"
      then have "Suc i < j" using Suc by simp
      with Suc.prems(1) have "\<exists>b. next_batch c (batches_pulled s + Suc i) = Inr b" by blast
      then show "\<exists>b. next_batch c (batches_pulled ?s2 + i) = Inr b" by simp
    qed
    have p2: "next_batch c (batches_pulled ?s2 + j') = Inl err" using Suc.prems(2) Suc by simp
    have p3: "j' < k" using Suc.prems(3) Suc by simp
    from Suc.IH[OF p1 p2 p3] obtain g' where
      "batch_loop c k ?s2 = Inl (err, ?s2\<lparr>self := g', batches_pulled := batches_pulled ?s2 + j'\<rparr>)"
      by blast
    then have "batch_loop c (Suc k) s = Inl (err, s\<lparr>self := g', batches_pulled := batches_pulled s + j\<rparr>)"
      using b g Suc by simp
    then show ?thesis by blast
  qed
qed

subsection \<open>One epoch, and several\<close>

lemma run_epoch_to_checkpoint:
  assumes "steps_succeed c" and "images_succeed c"
    and "\<forall>i<nat (n_batches c). \<exists>b. next_batch c (batches_pulled s + i) = Inr b"
    and "nv \<noteq> None \<longrightarrow> noise s \<noteq> None"
  shows "\<exists>s'. run_epoch c f nv e s = checkpoint_on_cadence c f e s' \<and>
      batches_pulled s' = batches_pulled s + nat (n_batches c) \<and>
      map epoch_tag (emissions s') = map epoch_tag (emissions s) @ [int e + 1] \<and>
      map noise_input (emissions s') = map noise_input (emissions s) @ [noise s'] \<and>
      noise s' = (if nv = None then Some (random_normal c e) else noise s) \<and>
      checkpoints s' = checkpoints s \<and>
      epochs_recorded s' = Suc (epochs_recorded s)"
proof -
  let ?s0 = "s\<lparr>self := reset_metrics (self s)\<rparr>"
  have "\<forall>i<nat (n_batches c). \<exists>b. next_batch c (batches_pulled ?s0 + i) = Inr b"
    using assms(3) by simp
  from batch_loop_ok[OF assms(1) this] obtain g where
    bl: "batch_loop c (nat (n_batches c)) ?s0 =
          Inr (?s0\<lparr>self := g, batches_pulled := batches_pulled ?s0 + nat (n_batches c)\<rparr>)"
    by blast
  define s3 where "s3 = choose_noise c nv e (append_averages
      (?s0\<lparr>self := g, batches_pulled := batches_pulled ?s0 + nat (n_batches c)\<rparr>))"
  have s3_bp: "batches_pulled s3 = batches_pulled s + nat (n_batches c)"
    and s3_em: "emissions s3 = emissions s"
    and s3_ck: "checkpoints s3 = checkpoints s"
    and s3_no: "noise s3 = (if nv = None then Some (random_normal c e) else noise s)"
    and s3_re: "epochs_recorded s3 = Suc (epochs_recorded s)"
    by (simp_all add: s3_def choose_noise_def append_averages_def epochs_recorded_def Let_def)
  have "noise s3 \<noteq> None" using s3_no assms(4) by simp
  from images_succeed_emit[OF assms(2) this] obtain cells where
    em: "generate_and_plot_images c (trainable (self s3)) (int e + 1) (noise s3) s3 =
          Inr (s3\<lparr>emissions := emissions s3 @
                 [\<lparr>epoch_tag = int e + 1, noise_input = noise s3, grid = cells\<rparr>]\<rparr>)"
    by blast
  let ?s4 = "s3\<lparr>emissions := emissions s3 @
                 [\<lparr>epoch_tag = int e + 1, noise_input = noise s3, grid = cells\<rparr>]\<rparr>"
  have "run_epoch c f nv e s = checkpoint_on_cadence c f e ?s4"
    unfolding run_epoch_def bl using em by (simp add: s3_def Let_def)
  moreover have "batches_pulled ?s4 = batches_pulled s + nat (n_batches c)"
    using s3_bp by simp
  moreover have "map epoch_tag (emissions ?s4) = map epoch_tag (emissions s) @ [int e + 1]"
    using s3_em by simp
  moreover have "map noise_input (emissions ?s4) = map noise_input (emissions s) @ [noise ?s4]"
    using s3_em by simp
  moreover have "noise ?s4 = (if nv = None then Some (random_normal c e) else noise s)"
    using s3_no by simp
  moreover have "checkpoints ?s4 = checkpoints s" using s3_ck by simp
  moreover have "epochs_recorded ?s4 = Suc (epochs_recorded s)"
    using s3_re by (simp add: epochs_recorded_def)
  ultimately show ?thesis by blast
qed

lemma run_epoch_ok:
  assumes "steps_succeed c" and "images_succeed c" and "f \<noteq> 0"
    and "\<forall>i<nat (n_batches c). \<exists>b. next_batch c (batches_pulled s + i) = Inr b"
    and "ckpt_save c (int e + 1) = None"
    and "nv \<noteq> None \<longrightarrow> noise s \<noteq> None"
  shows "\<exists>s'. run_epoch c f nv e s = Inr s' \<and>
      batches_pulled s' = batches_pulled s + nat (n_batches c) \<and>
      map epoch_tag (emissions s') = map epoch_tag (emissions s) @ [int e + 1] \<and>
      map noise_input (emissions s') = map noise_input (emissions s) @ [noise s'] \<and>
      noise s' = (if nv = None then Some (random_normal c e) else noise s) \<and>
      checkpoints s' = checkpoints s @ (if (int e + 1) mod f = 0 then [int e + 1] else []) \<and>
      epochs_recorded s' = Suc (epochs_recorded s)"
proof -
  from run_epoch_to_checkpoint[OF assms(1,2,4,6), of f e] obtain s4 where s4:
    "run_epoch c f nv e s = checkpoint_on_cadence c f e s4"
    "batches_pulled s4 = batches_pulled s + nat (n_batches c)"
    "map epoch_tag (emissions s4) = map epoch_tag (emissions s) @ [int e + 1]"
    "map noise_input (emissions s4) = map noise_input (emissions s) @ [noise s4]"
    "noise s4 = (if nv = None then Some (random_normal c e) else noise s)"
    "checkpoints s4 = checkpoints s"
    "epochs_recorded s4 = Suc (epochs_recorded s)"
    by blast
  show ?thesis
  proof (cases "(int e + 1) mod f = 0")
    case True
    then have "run_epoch c f nv e s = Inr (s4\<lparr>checkpoints := checkpoints s4 @ [int e + 1]\<rparr>)"
      using s4(1) assms(3,5) by (simp add: checkpoint_on_cadence_def)
    then show ?thesis using s4(2-7) True by (simp add: epochs_recorded_def)
  next
    case False
    then have "run_epoch c f nv e s = Inr s4"
      using s4(1) assms(3) by (simp add: checkpoint_on_cadence_def)
    then show ?thesis using s4(2-7) False by simp
  qed
qed

lemma run_epoch_checkpoint_failure:
  assumes "steps_succeed c" and "images_succeed c" and "f \<noteq> 0"
    and "\<forall>i<nat (n_batches c). \<exists>b. next_batch c (batches_pulled s + i) = Inr b"
    and "(int e + 1) mod f = 0" and "ckpt_save c (int e + 1) = Some err"
    and "nv \<noteq> None \<longrightarrow> noise s \<noteq> None"
  shows "\<exists>s'. run_epoch c f nv e s = Inl (err, s') \<and>
      batches_pulled s' = batches_pulled s + nat (n_batches c) \<and>
      map epoch_tag (emissions s') = map epoch_tag (emissions s) @ [int e + 1] \<and>
      checkpoints s' = checkpoints s \<and>
      epochs_recorded s' = Suc (epochs_recorded s)"
proof -
  from run_epoch_to_checkpoint[OF assms(1,2,4,7), of f e] obtain s4 where s4:
    "run_epoch c f nv e s = checkpoint_on_cadence c f e s4"
    "batches_pulled s4 = batches_pulled s + nat (n_batches c)"
    "map epoch_tag (emissions s4) = map epoch_tag (emissions s) @ [int e + 1]"
    "checkpoints s4 = checkpoints s"
    "epochs_recorded s4 = Suc (epochs_recorded s)"
    by blast
  have "run_epoch c f nv e s = Inl (err, s4)"
    using s4(1) assms(3,5,6) by (simp add: checkpoint_on_cadence_def)
  then show ?thesis using s4(2-5) by blast
qed

lemma run_epoch_batch_failure:
  assumes "steps_succeed c"
    and "\<forall>i<j. \<exists>b. next_batch c (batches_pulled s + i) = Inr b"
    and "next_batch c (batches_pulled s + j) = Inl err"
    and "j < nat (n_batches c)"
  shows "\<exists>s'. run_epoch c f nv e s = Inl (err, s') \<and>
      batches_pulled s' = batches_pulled s + j \<and> history s' = history s \<and>
      emissions s' = emissions s \<and> checkpoints s' = checkpoints s"
proof -
  let ?s0 = "s\<lparr>self := reset_metrics (self s)\<rparr>"
  have a: "\<forall>i<j. \<exists>b. next_batch c (batches_pulled ?s0 + i) = Inr b" using assms(2) by simp
  have b: "next_batch c (batches_pulled ?s0 + j) = Inl err" using assms(3) by simp
  from batch_loop_fail[OF assms(1) a b assms(4)] obtain g where
    "batch_loop c (nat (n_batches c)) ?s0 =
       Inl (err, ?s0\<lparr>self := g, batches_pulled := batches_pulled ?s0 + j\<rparr>)"
    by blast
  then show ?thesis by (simp add: run_epoch_def history_def)
qed

lemma epoch_loop_split:
  "epoch_loop c f nv e (k1 + k2) s =
     (case epoch_loop c f nv e k1 s of Inl x \<Rightarrow> Inl x | Inr s' \<Rightarrow> epoch_loop c f nv (e + k1) k2 s')"
  by (induction k1 arbitrary: e s) (simp_all split: sum.splits)

lemma tags_Suc: "tags e (Suc k) = (int e + 1) # tags (Suc e) k"
  by (simp add: tags_def upt_conv_Cons del: upt_Suc)

lemma epoch_loop_ok:
  assumes "steps_succeed c" and "images_succeed c" and "f \<noteq> 0"
    and "\<forall>i<k * nat (n_batches c). \<exists>b. next_batch c (batches_pulled s + i) = Inr b"
    and "\<forall>t\<in>set (tags e k). ckpt_save c t = None"
    and "nv \<noteq> None \<longrightarrow> noise s \<noteq> None"
  shows "\<exists>s'. epoch_loop c f nv e k s = Inr s' \<and>
      batches_pulled s' = batches_pulled s + k * nat (n_batches c) \<and>
      map epoch_tag (emissions s') = map epoch_tag (emissions s) @ tags e k \<and>
      checkpoints s' = checkpoints s @ filter (\<lambda>t. t mod f = 0) (tags e k) \<and>
      epochs_recorded s' = epochs_recorded s + k \<and>
      (0 < k \<or> nv \<noteq> None \<longrightarrow> noise s' \<noteq> None) \<and>
      (nv \<noteq> None \<longrightarrow> noise s' = noise s \<and>
         map noise_input (emissions s') = map noise_input (emissions s) @ replicate k (noise s))"
  using assms(4,5,6)
proof (induction k arbitrary: e s)
  case 0
  then show ?case by (simp add: tags_def)
next
  case (Suc k)
  let ?N = "nat (n_batches c)"
  have b1: "\<forall>i<?N. \<exists>b. next_batch c (batches_pulled s + i) = Inr b"
    using Suc.prems(1) by simp
  have c1: "ckpt_save c (int e + 1) = None" using Suc.prems(2) by (simp add: tags_Suc)
  from run_epoch_ok[OF assms(1-3) b1 c1 Suc.prems(3)] obtain s1 where s1:
    "run_epoch c f nv e s = Inr s1 \<and>
     batches_pulled s1 = batches_pulled s + ?N \<and>
     map epoch_tag (emissions s1) = map epoch_tag (emissions s) @ [int e + 1] \<and>
     map noise_input (emissions s1) = map noise_input (emissions s) @ [noise s1] \<and>
     noise s1 = (if nv = None then Some (random_normal c e) else noise s) \<and>
     checkpoints s1 = checkpoints s @ (if (int e + 1) mod f = 0 then [int e + 1] else []) \<and>
     epochs_recorded s1 = Suc (epochs_recorded s)" ..
  have bp1: "batches_pulled s1 = batches_pulled s + ?N" using s1 by simp
  have b2: "\<forall>i<k * ?N. \<exists>b. next_batch c (batches_pulled s1 + i) = Inr b"
  proof (intro allI impI)
    fix i assume "i < k * ?N"
    then have "?N + i < Suc k * ?N" by simp
    with Suc.prems(1) have "\<exists>b. next_batch c (batches_pulled s + (?N + i)) = Inr b" by blast
    then show "\<exists>b. next_batch c (batches_pulled s1 + i) = Inr b"
      by (simp add: bp1 add.assoc)
  qed
  have c2: "\<forall>t\<in>set (tags (Suc e) k). ckpt_save c t = None"
    using Suc.prems(2) by (simp add: tags_Suc)
  have n1: "noise s1 \<noteq> None" using s1 Suc.prems(3) by (cases "nv = None") simp_all
  then have n2: "nv \<noteq> None \<longrightarrow> noise s1 \<noteq> None" by simp
  from Suc.IH[OF b2 c2 n2] obtain s' where s':
    "epoch_loop c f nv (Suc e) k s1 = Inr s' \<and>
     batches_pulled s' = batches_pulled s1 + k * ?N \<and>
     map epoch_tag (emissions s') = map epoch_tag (emissions s1) @ tags (Suc e) k \<and>
     checkpoints s' = checkpoints s1 @ filter (\<lambda>t. t mod f = 0) (tags (Suc e) k) \<and>
     epochs_recorded s' = epochs_recorded s1 + k \<and>
     (0 < k \<or> nv \<noteq> None \<longrightarrow> noise s' \<noteq> None) \<and>
     (nv \<noteq> None \<longrightarrow> noise s' = noise s1 \<and>
         map noise_input (emissions s') = map noise_input (emissions s1) @ replicate k (noise s1))" ..
  have r1: "epoch_loop c f nv e (Suc k) s = Inr s'" using s1 s' by simp
  have r2: "batches_pulled s' = batches_pulled s + Suc k * ?N"
    using s1 s' by simp
  have r3: "map epoch_tag (emissions s') = map epoch_tag (emissions s) @ tags e (Suc k)"
    using s1 s' by (simp add: tags_Suc)
  have r4: "checkpoints s' = checkpoints s @ filter (\<lambda>t. t mod f = 0) (tags e (Suc k))"
    using s1 s' by (simp add: tags_Suc)
  have r5: "epochs_recorded s' = epochs_recorded s + Suc k"
    using s1 s' by simp
  have r6: "noise s' \<noteq> None"
  proof (cases k)
    case 0
    then show ?thesis using s' n1 by simp
  next
    case (Suc k')
    then show ?thesis using s' by simp
  qed
  have r7: "nv \<noteq> None \<longrightarrow> noise s' = noise s \<and>
         map noise_input (emissions s') = map noise_input (emissions s) @ replicate (Suc k) (noise s)"
  proof
    assume nn: "nv \<noteq> None"
    have a: "noise s1 = noise s" using s1 nn by (cases nv) simp_all
    have b: "map noise_input (emissions s1) = map noise_input (emissions s) @ [noise s]"
      using s1 a by simp
    have c: "noise s' = noise s1"
      and d: "map noise_input (emissions s') = map noise_input (emissions s1) @ replicate k (noise s1)"
      using s' nn by (cases nv; simp)+
    show "noise s' = noise s \<and>
         map noise_input (emissions s') = map noise_input (emissions s) @ replicate (Suc k) (noise s)"
      unfolding d b c a by (simp add: replicate_app_Cons_same)
  qed
  show ?case
    using r1 r2 r3 r4 r5 r6 r7 by (intro exI[of _ s']) simp
qed

lemma initial_state_fields:
  "batches_pulled (initial_state g nv) = 0"
  "emissions (initial_state g nv) = []"
  "checkpoints (initial_state g nv) = []"
  "noise (initial_state g nv) = nv"
  "epochs_recorded (initial_state g nv) = 0"
  "history (initial_state g nv) = ([], [], [])"
  "self (initial_state g nv) = g"
  by (simp_all add: initial_state_def epochs_recorded_def history_def)

lemma tags_ten: "tags 0 10 = [1, 2, 3, 4, 5, 6, 7, 8, 9, 10]"
  by (simp add: tags_def upt_conv_Cons del: upt_Suc)

subsection \<open>Whole runs\<close>

text \<open>
  C3. A run of ten epochs with \<^verbatim>\<open>checkpoint_freq = 5\<close> and a noise vector supplied by
  the caller, in which no collaborator raises, saves exactly two checkpoints, numbered
  5 and 10, and emits images eleven times: once for each of the epochs 1 to 10 and
  once more after the loop, again with epoch 10. All eleven emissions use the supplied
  noise vector.
\<close>

theorem train_loop_ten_epochs:
  assumes "steps_succeed c" and "images_succeed c"
    and "\<forall>i. \<exists>b. next_batch c i = Inr b" and "\<forall>k. ckpt_save c k = None"
  shows "\<exists>s. train_loop c g 10 5 (Some z) = Inr s \<and> checkpoints s = [5, 10] \<and>
     map epoch_tag (emissions s) = [1, 2, 3, 4, 5, 6, 7, 8, 9, 10, 10] \<and>
     map noise_input (emissions s) = replicate 11 (Some z) \<and>
     epochs_recorded s = 10"
proof -
  let ?s0 = "initial_state g (Some z) :: ('b, 'c) loop_state"
  have five: "(5::int) \<noteq> 0" by simp
  have b: "\<forall>i<10 * nat (n_batches c). \<exists>b. next_batch c (batches_pulled ?s0 + i) = Inr b"
    using assms(3) by simp
  have k: "\<forall>t\<in>set (tags 0 10). ckpt_save c t = None" using assms(4) by simp
  have n: "Some z \<noteq> None \<longrightarrow> noise ?s0 \<noteq> None" by (simp add: initial_state_fields)
  from epoch_loop_ok[OF assms(1,2) five b k n] obtain s1 where s1:
    "epoch_loop c 5 (Some z) 0 10 ?s0 = Inr s1 \<and>
      batches_pulled s1 = batches_pulled ?s0 + 10 * nat (n_batches c) \<and>
      map epoch_tag (emissions s1) = map epoch_tag (emissions ?s0) @ tags 0 10 \<and>
      checkpoints s1 = checkpoints ?s0 @ filter (\<lambda>t. t mod 5 = 0) (tags 0 10) \<and>
      epochs_recorded s1 = epochs_recorded ?s0 + 10 \<and>
      (0 < (10::nat) \<or> Some z \<noteq> None \<longrightarrow> noise s1 \<noteq> None) \<and>
      (Some z \<noteq> None \<longrightarrow> noise s1 = noise ?s0 \<and>
         map noise_input (emissions s1) = map noise_input (emissions ?s0) @ replicate 10 (noise ?s0))" ..
  have l: "epoch_loop c 5 (Some z) 0 (nat 10) ?s0 = Inr s1" using s1 by simp
  have t: "map epoch_tag (emissions s1) = [1, 2, 3, 4, 5, 6, 7, 8, 9, 10]"
    using s1 by (simp add: initial_state_fields tags_ten)
  have ck: "checkpoints s1 = [5, 10]"
    using s1 by (simp add: initial_state_fields tags_ten)
  have nz: "noise s1 = Some z" using s1 by (simp add: initial_state_fields)
  have ni: "map noise_input (emissions s1) = replicate 10 (Some z)"
    using s1 by (simp add: initial_state_fields)
  have er: "epochs_recorded s1 = 10" using s1 by (simp add: initial_state_fields)
  have "noise s1 \<noteq> None" using nz by simp
  from images_succeed_emit[OF assms(2) this] obtain cells where
    em: "generate_and_plot_images c (trainable (self s1)) 10 (noise s1) s1 =
          Inr (s1\<lparr>emissions := emissions s1 @
                 [\<lparr>epoch_tag = 10, noise_input = noise s1, grid = cells\<rparr>]\<rparr>)"
    by blast
  let ?s2 = "s1\<lparr>emissions := emissions s1 @
                 [\<lparr>epoch_tag = 10, noise_input = noise s1, grid = cells\<rparr>]\<rparr>"
  let ?s3 = "if log_dir c \<noteq> None
             then ?s2\<lparr>metrics_plot := Some (generator_losses ?s2, discriminator_losses ?s2,
                                              discriminator_accuracies ?s2)\<rparr>
             else ?s2"
  have r: "train_loop c g 10 5 (Some z) = Inr ?s3"
    unfolding train_loop_def l using em by simp
  have "checkpoints ?s3 = [5, 10]" using ck by simp
  moreover have "map epoch_tag (emissions ?s3) = [1, 2, 3, 4, 5, 6, 7, 8, 9, 10, 10]"
    using t by simp
  moreover have "map noise_input (emissions ?s3) = replicate 11 (Some z)"
  proof -
    have "replicate 11 (Some z) = replicate 10 (Some z) @ [Some z]"
      by (simp add: eval_nat_numeral)
    then show ?thesis using ni nz by simp
  qed
  moreover have "epochs_recorded ?s3 = 10" using er by (simp add: epochs_recorded_def)
  ultimately show ?thesis using r by (intro exI[of _ ?s3]) simp
qed

theorem train_loop_ten_epochs_witness:
  "steps_succeed (demo 4 {} {}) \<and> images_succeed (demo 4 {} {}) \<and>
   (\<exists>s. train_loop (demo 4 {} {}) demo_gan 10 5 (Some 7) = Inr s \<and> checkpoints s = [5, 10] \<and>
     map epoch_tag (emissions s) = [1, 2, 3, 4, 5, 6, 7, 8, 9, 10, 10] \<and>
     map noise_input (emissions s) = replicate 11 (Some 7) \<and>
     epochs_recorded s = 10)"
proof -
  have b: "\<forall>i. \<exists>b. next_batch (demo 4 {} {}) i = Inr b" by (simp add: demo_fields)
  have k: "\<forall>k. ckpt_save (demo 4 {} {}) k = None" by (simp add: demo_fields)
  show ?thesis
    using train_loop_ten_epochs[OF demo_steps_succeed demo_images_succeed b k, of demo_gan 7]
      demo_steps_succeed[of 4 "{}" "{}"] demo_images_succeed[of 4 "{}" "{}"]
    by simp
qed

text \<open>
  C7. Let the call number \<open>j\<close> of \<^verbatim>\<open>next(batch_generator)\<close> be the first thing that
  raises during a run, in the middle of some epoch. Then \<^verbatim>\<open>train_loop\<close> raises the same
  exception, and at that moment the three lists hold exactly what the epochs completed
  before had recorded: the entries of the first \<open>j div n_batches\<close> epochs and no entry
  for the interrupted one.
\<close>

theorem batch_error_propagates:
  assumes "steps_succeed c" and "images_succeed c" and "f \<noteq> 0"
    and "\<forall>k. ckpt_save c k = None"
    and "\<forall>i<j. \<exists>b. next_batch c i = Inr b" and "next_batch c j = Inl err"
    and "j < nat epochs * nat (n_batches c)"
  shows "\<exists>s prior. train_loop c g epochs f nv = Inl (err, s) \<and>
       epoch_loop c f nv 0 (j div nat (n_batches c)) (initial_state g nv) = Inr prior \<and>
       history s = history prior \<and>
       epochs_recorded s = j div nat (n_batches c) \<and>
       batches_pulled s = j"
proof -
  define N where "N = nat (n_batches c)"
  let ?s0 = "initial_state g nv :: ('b, 'c) loop_state"
  define k1 where "k1 = j div N"
  define r where "r = j mod N"
  have lt: "j < nat epochs * N" using assms(7) by (simp add: N_def)
  have Npos: "0 < N"
  proof (rule ccontr)
    assume "\<not> 0 < N"
    then have "N = 0" by simp
    with lt show False by simp
  qed
  have j: "k1 * N + r = j" unfolding k1_def r_def by (rule div_mult_mod_eq)
  have r: "r < N" unfolding r_def using Npos by (rule mod_less_divisor)
  have "k1 < nat epochs" unfolding k1_def using lt Npos by (simp add: div_less_iff_less_mult)
  from less_imp_Suc_add[OF this] obtain k2 where "nat epochs = Suc (k1 + k2)" ..
  then have E: "nat epochs = k1 + Suc k2" by simp
  have b: "\<forall>i<k1 * N. \<exists>b. next_batch c (batches_pulled ?s0 + i) = Inr b"
  proof (intro allI impI)
    fix i assume "i < k1 * N"
    then have "i < j" using j by linarith
    with assms(5) show "\<exists>b. next_batch c (batches_pulled ?s0 + i) = Inr b"
      by (simp add: initial_state_fields)
  qed
  have k: "\<forall>t\<in>set (tags 0 k1). ckpt_save c t = None" using assms(4) by simp
  have n: "nv \<noteq> None \<longrightarrow> noise ?s0 \<noteq> None" by (simp add: initial_state_fields)
  from epoch_loop_ok[OF assms(1,2,3) b[unfolded N_def] k n] obtain prior where p:
    "epoch_loop c f nv 0 k1 ?s0 = Inr prior \<and>
      batches_pulled prior = batches_pulled ?s0 + k1 * nat (n_batches c) \<and>
      map epoch_tag (emissions prior) = map epoch_tag (emissions ?s0) @ tags 0 k1 \<and>
      checkpoints prior = checkpoints ?s0 @ filter (\<lambda>t. t mod f = 0) (tags 0 k1) \<and>
      epochs_recorded prior = epochs_recorded ?s0 + k1 \<and>
      (0 < k1 \<or> nv \<noteq> None \<longrightarrow> noise prior \<noteq> None) \<and>
      (nv \<noteq> None \<longrightarrow> noise prior = noise ?s0 \<and>
         map noise_input (emissions prior) = map noise_input (emissions ?s0) @ replicate k1 (noise ?s0))" ..
  have lp: "epoch_loop c f nv 0 k1 ?s0 = Inr prior" using p by (rule conjunct1)
  have bp: "batches_pulled prior = k1 * N" using p by (simp add: initial_state_fields N_def)
  have er: "epochs_recorded prior = k1" using p by (simp add: initial_state_fields)
  have f1: "\<forall>i<r. \<exists>b. next_batch c (batches_pulled prior + i) = Inr b"
  proof (intro allI impI)
    fix i assume "i < r"
    then have "k1 * N + i < j" using j by linarith
    with assms(5) show "\<exists>b. next_batch c (batches_pulled prior + i) = Inr b"
      unfolding bp by blast
  qed
  have f2: "next_batch c (batches_pulled prior + r) = Inl err"
    unfolding bp j by (rule assms(6))
  from run_epoch_batch_failure[OF assms(1) f1 f2 r[unfolded N_def], of f nv k1] obtain s where s:
    "run_epoch c f nv k1 prior = Inl (err, s) \<and>
      batches_pulled s = batches_pulled prior + r \<and> history s = history prior \<and>
      emissions s = emissions prior \<and> checkpoints s = checkpoints prior" ..
  have re: "run_epoch c f nv k1 prior = Inl (err, s)" using s by (rule conjunct1)
  have "epoch_loop c f nv 0 (nat epochs) ?s0 = Inl (err, s)"
    unfolding E epoch_loop_split lp using re by simp
  then have t: "train_loop c g epochs f nv = Inl (err, s)"
    by (simp add: train_loop_def)
  have h: "history s = history prior" using s by simp
  then have e1: "epochs_recorded s = k1"
    using er by (simp add: history_def epochs_recorded_def)
  have "batches_pulled s = k1 * N + r" using s bp by simp
  then have e2: "batches_pulled s = j" unfolding j .
  show ?thesis
    using t lp h e1 e2 unfolding k1_def N_def by (intro exI[of _ s] exI[of _ prior]) simp
qed

theorem batch_error_propagates_witness:
  "\<exists>s prior. train_loop (demo 4 {6} {}) demo_gan 3 5 (Some 7) = Inl (OSError, s) \<and>
       epoch_loop (demo 4 {6} {}) 5 (Some 7) 0 1 (initial_state demo_gan (Some 7)) = Inr prior \<and>
       history s = history prior \<and> epochs_recorded s = 1 \<and> batches_pulled s = 6"
proof -
  have f: "(5::int) \<noteq> 0" by simp
  have k: "\<forall>k. ckpt_save (demo 4 {6} {}) k = None" by (simp add: demo_fields)
  have b: "\<forall>i<6. \<exists>b. next_batch (demo 4 {6} {}) i = Inr b" by (simp add: demo_fields)
  have e: "next_batch (demo 4 {6} {}) 6 = Inl OSError" by (simp add: demo_fields)
  have l: "6 < nat 3 * nat (n_batches (demo 4 {6} {}))" by (simp add: demo_fields)
  have d: "6 div nat (n_batches (demo 4 {6} {})) = 1" by (simp add: demo_fields)
  show ?thesis
    using batch_error_propagates[OF demo_steps_succeed demo_images_succeed f k b e l,
        of demo_gan "Some 7"]
    unfolding d .
qed

text \<open>
  C8, as the code has it. \<^verbatim>\<open>train_loop\<close> does not catch an exception of
  \<^verbatim>\<open>ckpt_manager.save\<close>. If the save at epoch \<open>e\<close> is the first thing that raises,
  \<^verbatim>\<open>train_loop\<close> raises that exception and the run ends there. The averages of epoch
  \<open>e\<close> have been recorded and its images emitted before, since both precede the save;
  the checkpoints saved are those of the earlier epochs on the cadence, so the failed
  save is not among them; no batch of a later epoch is pulled.
\<close>

theorem checkpoint_failure_propagates:
  assumes "steps_succeed c" and "images_succeed c" and "f \<noteq> 0"
    and "\<forall>i. \<exists>b. next_batch c i = Inr b"
    and "0 < e" and "int e \<le> epochs" and "int e mod f = 0"
    and "ckpt_save c (int e) = Some err"
    and "\<forall>t. t < int e \<longrightarrow> ckpt_save c t = None"
  shows "\<exists>s. train_loop c g epochs f nv = Inl (err, s) \<and>
     epochs_recorded s = e \<and>
     map epoch_tag (emissions s) = tags 0 e \<and>
     batches_pulled s = e * nat (n_batches c) \<and>
     checkpoints s = filter (\<lambda>t. t mod f = 0) (tags 0 (e - 1))"
proof -
  let ?N = "nat (n_batches c)"
  let ?s0 = "initial_state g nv :: ('b, 'c) loop_state"
  from assms(5) obtain k1 where e: "e = Suc k1" by (cases e) simp_all
  have "k1 < nat epochs" using assms(6) e by simp
  from less_imp_Suc_add[OF this] obtain k2 where "nat epochs = Suc (k1 + k2)" ..
  then have E: "nat epochs = k1 + Suc k2" by simp
  have b: "\<forall>i<k1 * ?N. \<exists>b. next_batch c (batches_pulled ?s0 + i) = Inr b"
    using assms(4) by simp
  have k: "\<forall>t\<in>set (tags 0 k1). ckpt_save c t = None"
    using assms(9) e by (auto simp: tags_def)
  have n: "nv \<noteq> None \<longrightarrow> noise ?s0 \<noteq> None" by (simp add: initial_state_fields)
  from epoch_loop_ok[OF assms(1,2,3) b k n] obtain prior where p:
    "epoch_loop c f nv 0 k1 ?s0 = Inr prior \<and>
      batches_pulled prior = batches_pulled ?s0 + k1 * ?N \<and>
      map epoch_tag (emissions prior) = map epoch_tag (emissions ?s0) @ tags 0 k1 \<and>
      checkpoints prior = checkpoints ?s0 @ filter (\<lambda>t. t mod f = 0) (tags 0 k1) \<and>
      epochs_recorded prior = epochs_recorded ?s0 + k1 \<and>
      (0 < k1 \<or> nv \<noteq> None \<longrightarrow> noise prior \<noteq> None) \<and>
      (nv \<noteq> None \<longrightarrow> noise prior = noise ?s0 \<and>
         map noise_input (emissions prior) = map noise_input (emissions ?s0) @ replicate k1 (noise ?s0))" ..
  have b1: "\<forall>i<?N. \<exists>b. next_batch c (batches_pulled prior + i) = Inr b"
    using assms(4) by simp
  have m: "(int k1 + 1) mod f = 0" using assms(7) e by (simp add: add.commute)
  have sv: "ckpt_save c (int k1 + 1) = Some err" using assms(8) e by (simp add: add.commute)
  have n1: "nv \<noteq> None \<longrightarrow> noise prior \<noteq> None" using p by blast
  from run_epoch_checkpoint_failure[OF assms(1,2,3) b1 m sv n1] obtain s where s:
    "run_epoch c f nv k1 prior = Inl (err, s) \<and>
      batches_pulled s = batches_pulled prior + ?N \<and>
      map epoch_tag (emissions s) = map epoch_tag (emissions prior) @ [int k1 + 1] \<and>
      checkpoints s = checkpoints prior \<and>
      epochs_recorded s = Suc (epochs_recorded prior)" ..
  have "epoch_loop c f nv 0 (nat epochs) ?s0 = Inl (err, s)"
    unfolding E epoch_loop_split using p s by simp
  then have t: "train_loop c g epochs f nv = Inl (err, s)"
    by (simp add: train_loop_def)
  have "tags 0 (Suc k1) = tags 0 k1 @ [int k1 + 1]" by (simp add: tags_def)
  then have "map epoch_tag (emissions s) = tags 0 e"
    using s p e by (simp add: initial_state_fields)
  moreover have "epochs_recorded s = e" using s p e by (simp add: initial_state_fields)
  moreover have "batches_pulled s = e * ?N" using s p e by (simp add: initial_state_fields)
  moreover have "checkpoints s = filter (\<lambda>t. t mod f = 0) (tags 0 (e - 1))"
    using s p e by (simp add: initial_state_fields)
  ultimately show ?thesis using t by (intro exI[of _ s]) simp
qed

theorem checkpoint_failure_propagates_witness:
  "\<exists>s. train_loop (demo 2 {} {2}) demo_gan 3 2 (Some 7) = Inl (OSError, s) \<and>
     epochs_recorded s = 2 \<and> map epoch_tag (emissions s) = [1, 2] \<and>
     batches_pulled s = 4 \<and> checkpoints s = []"
proof -
  have f: "(2::int) \<noteq> 0" by simp
  have b: "\<forall>i. \<exists>b. next_batch (demo 2 {} {2}) i = Inr b" by (simp add: demo_fields)
  have p: "0 < (2::nat)" by simp
  have le: "int 2 \<le> 3" by simp
  have m: "int 2 mod 2 = 0" by simp
  have sv: "ckpt_save (demo 2 {} {2}) (int 2) = Some OSError" by (simp add: demo_fields)
  have ok: "\<forall>t. t < int 2 \<longrightarrow> ckpt_save (demo 2 {} {2}) t = None" by (simp add: demo_fields)
  have t2: "tags 0 2 = [1, 2]" by (simp add: tags_def upt_conv_Cons del: upt_Suc)
  have t1: "filter (\<lambda>t. t mod 2 = 0) (tags 0 (2 - 1)) = []" by (simp add: tags_def)
  show ?thesis
    using checkpoint_failure_propagates[OF demo_steps_succeed demo_images_succeed f b p le m sv ok,
        of demo_gan "Some 7"]
    unfolding t2 t1 by (simp add: demo_fields)
qed

text \<open>
  A run of two epochs of two batches each, with a checkpoint due after every epoch,
  in which the save after the first epoch raises: the call raises, with one epoch
  recorded, one emission and two batches pulled. Training has not continued.
\<close>

theorem checkpoint_failure_stops_training:
  "isl (train_loop (demo 2 {} {1}) demo_gan 2 1 (Some 7)) \<and>
   epochs_recorded (final_state (train_loop (demo 2 {} {1}) demo_gan 2 1 (Some 7))) = 1 \<and>
   batches_pulled (final_state (train_loop (demo 2 {} {1}) demo_gan 2 1 (Some 7))) = 2 \<and>
   map epoch_tag (emissions (final_state (train_loop (demo 2 {} {1}) demo_gan 2 1 (Some 7)))) = [1]"
proof -
  let ?c = "demo 2 {} {1}"
  let ?s0 = "initial_state demo_gan (Some 7) :: (nat, nat) loop_state"
  have f: "(1::int) \<noteq> 0" by simp
  have b: "\<forall>i<nat (n_batches ?c). \<exists>b. next_batch ?c (batches_pulled ?s0 + i) = Inr b"
    by (simp add: demo_fields)
  have m: "(int 0 + 1) mod 1 = 0" by simp
  have sv: "ckpt_save ?c (int 0 + 1) = Some OSError" by (simp add: demo_fields)
  have n: "Some (7::nat) \<noteq> None \<longrightarrow> noise ?s0 \<noteq> None" by (simp add: initial_state_fields)
  from run_epoch_checkpoint_failure[OF demo_steps_succeed demo_images_succeed f b m sv n]
  obtain s where s: "run_epoch ?c 1 (Some 7) 0 ?s0 = Inl (OSError, s) \<and>
      batches_pulled s = batches_pulled ?s0 + nat (n_batches ?c) \<and>
      map epoch_tag (emissions s) = map epoch_tag (emissions ?s0) @ [int 0 + 1] \<and>
      checkpoints s = checkpoints ?s0 \<and>
      epochs_recorded s = Suc (epochs_recorded ?s0)" ..
  have two: "nat 2 = Suc (Suc 0)" by simp
  have "train_loop ?c demo_gan 2 1 (Some 7) = Inl (OSError, s)"
    unfolding train_loop_def two using s by simp
  then show ?thesis
    using s by (simp add: final_state_def initial_state_fields demo_fields)
qed




subsection \<open>The metrics of an epoch\<close>









end
